theory Spec2Isabelle
  imports Complex_Main "HOL-Library.AList"
begin

section \<open>Python values\<close>

text \<open>
  The settings held by \<open>SimpleConfig\<close> come from a JSON file and from the command
  line. A value is \<open>None\<close>, a bool, an int (unbounded), a str, a list or a dict with
  str keys. Strings are lists of code points below 256. JSON floats are not part of
  this value type.

  A Python dict is an association list in insertion order with distinct keys:
  \<open>d[k] = v\<close> is \<open>AList.update\<close> (an existing key keeps its place, a new key goes
  to the end), \<open>d.pop(k, None)\<close> and \<open>del d[k]\<close> are \<open>AList.delete\<close>, and
  \<open>d.get(k)\<close> is \<open>map_of\<close>.
\<close>

datatype pyval =
    PNone
  | PBool bool
  | PInt int
  | PStr string
  | PList "pyval list"
  | PDict "(string \<times> pyval) list"

type_synonym pydict = "(string \<times> pyval) list"

datatype error =
    TypeError
  | ValueError
  | AssertionError
  | IndexError
  | ZeroDivisionError
  | UpgradeError
  | FileNotFoundError
  | OSError

text \<open>The numeric value of a Python object: bool is a subclass of int.\<close>

fun py_num :: "pyval \<Rightarrow> int option" where
  "py_num (PBool b) = Some (if b then 1 else 0)"
| "py_num (PInt i) = Some i"
| "py_num _ = None"

text \<open>Truth value testing (\<open>bool(x)\<close>).\<close>

fun py_truthy :: "pyval \<Rightarrow> bool" where
  "py_truthy PNone = False"
| "py_truthy (PBool b) = b"
| "py_truthy (PInt i) = (i \<noteq> 0)"
| "py_truthy (PStr s) = (s \<noteq> [])"
| "py_truthy (PList xs) = (xs \<noteq> [])"
| "py_truthy (PDict kvs) = (kvs \<noteq> [])"

section \<open>Built-in functions on values\<close>

text \<open>
  \<open>repr\<close> of a str: the quote is \<open>'\<close> unless the string has a \<open>'\<close> and no \<open>"\<close>;
  the quote and the backslash are escaped, tab, newline and carriage return have their
  letter, and the other code points that are not printable (below 32, 127, 128 to 160,
  173) are written \<open>\xhh\<close>.
\<close>

definition hex_digit :: "nat \<Rightarrow> char" where
  "hex_digit d = (if d < 10 then char_of (48 + d) else char_of (87 + d))"

definition repr_char :: "char \<Rightarrow> char \<Rightarrow> string" where
  "repr_char q c =
     (let n = (of_char c :: nat) in
      if c = q \<or> c = CHR 0x5C then [CHR 0x5C, c]
      else if n = 9 then [CHR 0x5C, CHR ''t'']
      else if n = 10 then [CHR 0x5C, CHR ''n'']
      else if n = 13 then [CHR 0x5C, CHR ''r'']
      else if n < 32 \<or> n = 127 \<or> (128 \<le> n \<and> n \<le> 160) \<or> n = 173
        then [CHR 0x5C, CHR ''x'', hex_digit (n div 16), hex_digit (n mod 16)]
      else [c])"

definition repr_str :: "string \<Rightarrow> string" where
  "repr_str s =
     (let q = (if CHR 0x27 \<in> set s \<and> CHR 0x22 \<notin> set s then CHR 0x22 else CHR 0x27)
      in [q] @ concat (map (repr_char q) s) @ [q])"

fun dec_nat :: "nat \<Rightarrow> string" where
  "dec_nat n =
     (if n < 10 then [char_of (48 + n)]
      else dec_nat (n div 10) @ [char_of (48 + n mod 10)])"

definition dec_int :: "int \<Rightarrow> string" where
  "dec_int i = (if i < 0 then CHR ''-'' # dec_nat (nat (- i)) else dec_nat (nat i))"

fun join :: "string \<Rightarrow> string list \<Rightarrow> string" where
  "join sep [] = []"
| "join sep [x] = x"
| "join sep (x # y # ys) = x @ sep @ join sep (y # ys)"

fun py_repr :: "pyval \<Rightarrow> string" where
  "py_repr PNone = ''None''"
| "py_repr (PBool b) = (if b then ''True'' else ''False'')"
| "py_repr (PInt i) = dec_int i"
| "py_repr (PStr s) = repr_str s"
| "py_repr (PList xs) = ''['' @ join '', '' (map py_repr xs) @ '']''"
| "py_repr (PDict kvs) =
     ''{'' @ join '', '' (map (\<lambda>(k, v). repr_str k @ '': '' @ py_repr v) kvs) @ ''}''"

text \<open>\<open>str(x)\<close>: a str is itself, every other value is its \<open>repr\<close>.\<close>

definition py_str :: "pyval \<Rightarrow> string" where
  "py_str v = (case v of PStr s \<Rightarrow> s | _ \<Rightarrow> py_repr v)"

text \<open>
  \<open>s.rsplit(c, n)\<close> for a separator of one character: at most \<open>n\<close> splits, taken
  from the right.
\<close>

definition after_last :: "char \<Rightarrow> string \<Rightarrow> string" where
  "after_last c s = rev (takeWhile (\<lambda>x. x \<noteq> c) (rev s))"

definition before_last :: "char \<Rightarrow> string \<Rightarrow> string" where
  "before_last c s = rev (tl (dropWhile (\<lambda>x. x \<noteq> c) (rev s)))"

fun rsplit :: "char \<Rightarrow> nat \<Rightarrow> string \<Rightarrow> string list" where
  "rsplit c 0 s = [s]"
| "rsplit c (Suc n) s =
     (if c \<in> set s then rsplit c n (before_last c s) @ [after_last c s] else [s])"

text \<open>
  Whether \<open>int(s)\<close> returns for a str \<open>s\<close> (CPython 3.6 to 3.10, base 10): white
  space, an optional sign, decimal digits with single underscores between them, white
  space. On code points below 256 the white space is 9 to 13, 32, 133 and 160, and the
  digits are \<open>0\<close> to \<open>9\<close>.
\<close>

definition is_space :: "char \<Rightarrow> bool" where
  "is_space c \<longleftrightarrow> (of_char c :: nat) \<in> {9, 10, 11, 12, 13, 32, 133, 160}"

definition is_digit :: "char \<Rightarrow> bool" where
  "is_digit c \<longleftrightarrow> 48 \<le> (of_char c :: nat) \<and> (of_char c :: nat) \<le> 57"

fun digit_run :: "string \<Rightarrow> bool" where
  "digit_run [] = False"
| "digit_run [c] = is_digit c"
| "digit_run (c # d # cs) =
     (is_digit c \<and> (if d = CHR ''_'' then digit_run cs else digit_run (d # cs)))"

definition py_int_ok :: "string \<Rightarrow> bool" where
  "py_int_ok s =
     (let s1 = dropWhile is_space s;
          s2 = (case s1 of [] \<Rightarrow> []
                | c # r \<Rightarrow> if c = CHR ''+'' \<or> c = CHR ''-'' then r else s1);
          body = takeWhile (\<lambda>c. is_digit c \<or> c = CHR ''_'') s2;
          rest = dropWhile (\<lambda>c. is_digit c \<or> c = CHR ''_'') s2
      in digit_run body \<and> list_all is_space rest)"

text \<open>
  \<open>v > k\<close> and \<open>v < k\<close> for a value and an int: a \<open>TypeError\<close> unless the value is a
  number.
\<close>

definition py_greater :: "pyval \<Rightarrow> int \<Rightarrow> error + bool" where
  "py_greater v k = (case py_num v of None \<Rightarrow> Inl TypeError | Some n \<Rightarrow> Inr (n > k))"

definition py_less :: "pyval \<Rightarrow> int \<Rightarrow> error + bool" where
  "py_less v k = (case py_num v of None \<Rightarrow> Inl TypeError | Some n \<Rightarrow> Inr (n < k))"

text \<open>\<open>xs[i]\<close>: a negative index counts from the end; \<open>None\<close> stands for \<open>IndexError\<close>.\<close>

definition py_index :: "'a list \<Rightarrow> int \<Rightarrow> 'a option" where
  "py_index xs i =
     (let n = int (length xs) in
      if 0 \<le> i \<and> i < n then Some (xs ! nat i)
      else if - n \<le> i \<and> i < 0 then Some (xs ! nat (n + i))
      else None)"

text \<open>\<open>int(x)\<close> of a number rounds towards zero.\<close>

definition py_trunc :: "rat \<Rightarrow> int" where
  "py_trunc x = (if 0 \<le> x then \<lfloor>x\<rfloor> else \<lceil>x\<rceil>)"

section \<open>The configuration object and its environment\<close>

text \<open>
  The outcome of one attempt of \<open>save_user_config\<close> to write \<open><path>/config\<close>:
  the write and the chmod succeed; a \<open>FileNotFoundError\<close> while the directory is gone;
  a \<open>FileNotFoundError\<close> while the directory still exists; any other exception.
\<close>

datatype write_result = Written | NotFoundDirGone | NotFoundDirExists | WriteFailed

text \<open>
  The fields of \<open>SimpleConfig\<close> (\<open>cmdline_options\<close>, \<open>user_config\<close>, \<open>path\<close>,
  \<open>fee_estimates\<close>), followed by the file system as the object sees it: \<open>fs\<close> says how
  the \<open>n\<close>-th write attempt ends, \<open>writes\<close> counts the attempts made so far, and
  \<open>saved\<close> is the settings map that the last successful write put into the file.
  The lock, the singleton slot and the diagnostic printing (\<open>print_error\<close>,
  \<open>print_stderr\<close>) are not modelled.
\<close>

record config =
  cmdline_options :: pydict
  user_config :: pydict
  path :: string
  fee_estimates :: "(int \<times> rat) list"
  fs :: "nat \<Rightarrow> write_result"
  writes :: nat
  saved :: "pydict option"

text \<open>A file system on which every write succeeds.\<close>

definition disk_ok :: "nat \<Rightarrow> write_result" where
  "disk_ok n = Written"

text \<open>The constants imported from \<open>bitcoin.py\<close>, which is not among the sources.\<close>

record bitcoin =
  MAX_FEE_RATE :: int
  FEE_TARGETS :: "int list"

definition FINAL_CONFIG_VERSION :: int where
  "FINAL_CONFIG_VERSION = 2"

section \<open>Reading and writing keys\<close>

definition is_modifiable :: "config \<Rightarrow> string \<Rightarrow> bool" where
  "is_modifiable st key \<longleftrightarrow> map_of (cmdline_options st) key = None"

text \<open>
  \<open>save_user_config\<close>: nothing happens without a path; otherwise the file is written.
  A \<open>FileNotFoundError\<close> is swallowed when the directory is gone and raised again when
  it still exists; every other exception propagates.
\<close>

definition save_user_config :: "config \<Rightarrow> error option \<times> config" where
  "save_user_config st =
     (if path st = [] then (None, st)
      else
        (let st' = st\<lparr>writes := Suc (writes st)\<rparr> in
         case fs st (writes st) of
           Written \<Rightarrow> (None, st'\<lparr>saved := Some (user_config st)\<rparr>)
         | NotFoundDirGone \<Rightarrow> (None, st')
         | NotFoundDirExists \<Rightarrow> (Some FileNotFoundError, st')
         | WriteFailed \<Rightarrow> (Some OSError, st')))"

definition set_key_in_user_config ::
    "config \<Rightarrow> string \<Rightarrow> pyval \<Rightarrow> bool \<Rightarrow> error option \<times> config" where
  "set_key_in_user_config st key val save =
     (let st' =
        (if val \<noteq> PNone
         then st\<lparr>user_config := AList.update key val (user_config st)\<rparr>
         else st\<lparr>user_config := AList.delete key (user_config st)\<rparr>)
      in if save then save_user_config st' else (None, st'))"

definition set_key :: "config \<Rightarrow> string \<Rightarrow> pyval \<Rightarrow> bool \<Rightarrow> error option \<times> config" where
  "set_key st key val save =
     (if \<not> is_modifiable st key then (None, st)
      else set_key_in_user_config st key val save)"

text \<open>\<open>get\<close>: \<open>dict.get(key)\<close> is \<open>None\<close> for a missing key and for a key bound to \<open>None\<close>.\<close>

definition get :: "config \<Rightarrow> string \<Rightarrow> pyval \<Rightarrow> pyval" where
  "get st key dflt =
     (let out = (case map_of (cmdline_options st) key of None \<Rightarrow> PNone | Some v \<Rightarrow> v)
      in if out = PNone
         then (case map_of (user_config st) key of None \<Rightarrow> dflt | Some v \<Rightarrow> v)
         else out)"

section \<open>Schema version and migration\<close>

text \<open>
  \<open>rename_config_keys(config, keypairs)\<close> returns whether it changed \<open>config\<close>,
  and the changed \<open>config\<close>.
\<close>

fun rename_config_keys :: "pydict \<Rightarrow> (string \<times> string) list \<Rightarrow> bool \<times> pydict" where
  "rename_config_keys config [] = (False, config)"
| "rename_config_keys config ((old_key, new_key) # keypairs) =
     (case map_of config old_key of
        None \<Rightarrow> rename_config_keys config keypairs
      | Some v \<Rightarrow>
          (let config1 = (if map_of config new_key = None
                          then AList.update new_key v config else config);
               config2 = AList.delete old_key config1
           in (True, snd (rename_config_keys config2 keypairs))))"

definition get_config_version :: "config \<Rightarrow> error + pyval" where
  "get_config_version st =
     (let config_version = get st ''config_version'' (PInt 1) in
      case py_greater config_version FINAL_CONFIG_VERSION of
        Inl e \<Rightarrow> Inl e
      | Inr _ \<Rightarrow> Inr config_version)"

definition requires_upgrade :: "config \<Rightarrow> error + bool" where
  "requires_upgrade st =
     (case get_config_version st of
        Inl e \<Rightarrow> Inl e
      | Inr v \<Rightarrow> py_less v FINAL_CONFIG_VERSION)"

definition is_upgrade_method_needed :: "config \<Rightarrow> int \<Rightarrow> int \<Rightarrow> error + bool" where
  "is_upgrade_method_needed st min_version max_version =
     (case get_config_version st of
        Inl e \<Rightarrow> Inl e
      | Inr cur_version \<Rightarrow>
          (case py_greater cur_version max_version of
             Inl e \<Rightarrow> Inl e
           | Inr True \<Rightarrow> Inr False
           | Inr False \<Rightarrow>
               (case py_less cur_version min_version of
                  Inl e \<Rightarrow> Inl e
                | Inr True \<Rightarrow> Inl UpgradeError
                | Inr False \<Rightarrow> Inr True)))"

text \<open>
  The statements of the \<open>try\<close> block of \<open>convert_version_2\<close> before the store: the
  unpacking of the three fields raises \<open>ValueError\<close>, the \<open>assert\<close> raises
  \<open>AssertionError\<close>, \<open>int(port)\<close> raises \<open>ValueError\<close>.
\<close>

definition convert_server :: "pyval \<Rightarrow> error + string" where
  "convert_server server_str =
     (case rsplit CHR '':'' 2 (py_str server_str) of
        [host, port, protocol] \<Rightarrow>
          if \<not> (protocol = ''s'' \<or> protocol = ''t'') then Inl AssertionError
          else if \<not> py_int_ok port then Inl ValueError
          else Inr (host @ '':'' @ port @ '':s'')
      | _ \<Rightarrow> Inl ValueError)"

text \<open>
  \<open>convert_version_2\<close>. The \<open>except BaseException\<close> clause also catches what
  the store inside the \<open>try\<close> block raises; what the handler itself raises propagates.
\<close>

definition convert_version_2 :: "config \<Rightarrow> error option \<times> config" where
  "convert_version_2 st =
     (case is_upgrade_method_needed st 1 1 of
        Inl e \<Rightarrow> (Some e, st)
      | Inr False \<Rightarrow> (None, st)
      | Inr True \<Rightarrow>
          (let st1 = st\<lparr>user_config :=
                 snd (rename_config_keys (user_config st) [(''auto_cycle'', ''auto_connect'')])\<rparr>;
               server_str = (case map_of (user_config st1) ''server'' of
                               None \<Rightarrow> PNone | Some v \<Rightarrow> v);
               (caught, st2) =
                 (case convert_server server_str of
                    Inl e \<Rightarrow> (Some e, st1)
                  | Inr s \<Rightarrow> set_key_in_user_config st1 ''server'' (PStr s) True);
               (raised, st3) =
                 (case caught of
                    None \<Rightarrow> (None, st2)
                  | Some e \<Rightarrow> set_key_in_user_config st2 ''server'' PNone True)
           in case raised of
                Some e \<Rightarrow> (Some e, st3)
              | None \<Rightarrow> set_key st3 ''config_version'' (PInt 2) True))"

definition upgrade :: "config \<Rightarrow> error option \<times> config" where
  "upgrade st =
     (case convert_version_2 st of
        (Some e, st1) \<Rightarrow> (Some e, st1)
      | (None, st1) \<Rightarrow> set_key st1 ''config_version'' (PInt FINAL_CONFIG_VERSION) True)"

text \<open>
  \<open>__init__\<close>, from the copy of the options on. Its arguments are \<open>options\<close>, what
  \<open>read_user_config_function(self.path)\<close> returned, the directory that
  \<open>electrum_path()\<close> returned, and the file system. The result is the constructed
  object, or the exception that left the constructor.
\<close>

definition init ::
    "pydict option \<Rightarrow> pydict option \<Rightarrow> string \<Rightarrow> (nat \<Rightarrow> write_result) \<Rightarrow> error + config" where
  "init options loaded path0 fs0 =
     (let options1 = (case options of None \<Rightarrow> [] | Some d \<Rightarrow> d);
          cmdline = AList.delete ''config_version'' options1;
          loaded1 = (case loaded of None \<Rightarrow> [] | Some d \<Rightarrow> d);
          persisted = (if loaded1 = [] then [(''config_version'', PInt FINAL_CONFIG_VERSION)]
                       else loaded1);
          st = \<lparr>cmdline_options =
                  snd (rename_config_keys cmdline [(''auto_cycle'', ''auto_connect'')]),
                user_config = persisted, path = path0, fee_estimates = [],
                fs = fs0, writes = 0, saved = None\<rparr>
      in case requires_upgrade st of
           Inl e \<Rightarrow> Inl e
         | Inr False \<Rightarrow> Inr st
         | Inr True \<Rightarrow>
             (case upgrade st of
                (Some e, st') \<Rightarrow> Inl e
              | (None, st') \<Rightarrow> Inr st'))"

section \<open>Fee estimation\<close>

text \<open>
  Fee rates are Python numbers. They are modelled by their exact value, a rational:
  the rounding of float arithmetic is outside this model, and the float constants
  \<open>0.4\<close> and \<open>0.06\<close> are \<open>2/5\<close> and \<open>3/50\<close>.
\<close>

definition max_fee_rate :: "bitcoin \<Rightarrow> config \<Rightarrow> pyval" where
  "max_fee_rate B st =
     (let f = get st ''max_fee_rate'' (PInt (MAX_FEE_RATE B)) in
      if py_num f = Some 0 then PInt (MAX_FEE_RATE B) else f)"

definition dynfee :: "bitcoin \<Rightarrow> config \<Rightarrow> int \<Rightarrow> error + rat option" where
  "dynfee B st i =
     (let r =
        (if i < 4 then
           (case py_index (FEE_TARGETS B) i of
              None \<Rightarrow> Inl IndexError
            | Some j \<Rightarrow> Inr (map_of (fee_estimates st) j))
         else if i = 4 then
           Inr (case map_of (fee_estimates st) 2 of
                  None \<Rightarrow> None
                | Some fee \<Rightarrow> Some (fee + fee / 2))
         else Inl AssertionError)
      in case r of
           Inl e \<Rightarrow> Inl e
         | Inr None \<Rightarrow> Inr None
         | Inr (Some fee) \<Rightarrow> Inr (Some (min (of_int (5 * MAX_FEE_RATE B)) fee)))"

definition has_fee_estimates :: "config \<Rightarrow> bool" where
  "has_fee_estimates st \<longleftrightarrow> length (fee_estimates st) = 4"

definition is_dynfee :: "config \<Rightarrow> bool" where
  "is_dynfee st \<longleftrightarrow> py_truthy (get st ''dynamic_fees'' (PBool False)) \<and> has_fee_estimates st"

text \<open>
  The candidates of \<open>reverse_dynfee\<close> with their distance to the given rate;
  subtracting from \<open>None\<close> is a \<open>TypeError\<close>.
\<close>

fun distances :: "rat \<Rightarrow> (int \<times> rat option) list \<Rightarrow> error + (int \<times> rat) list" where
  "distances fee_per_kb [] = Inr []"
| "distances fee_per_kb ((k, None) # l) = Inl TypeError"
| "distances fee_per_kb ((k, Some v) # l) =
     (case distances fee_per_kb l of
        Inl e \<Rightarrow> Inl e
      | Inr ds \<Rightarrow> Inr ((k, \<bar>v - fee_per_kb\<bar>) # ds))"

text \<open>
  \<open>min(xs, key=operator.itemgetter(1))\<close>: the first item whose second component
  is the least; \<open>ValueError\<close> on an empty sequence.
\<close>

fun min_from :: "int \<times> rat \<Rightarrow> (int \<times> rat) list \<Rightarrow> int \<times> rat" where
  "min_from best [] = best"
| "min_from best (x # xs) = min_from (if snd x < snd best then x else best) xs"

definition py_min :: "(int \<times> rat) list \<Rightarrow> error + int \<times> rat" where
  "py_min xs = (case xs of [] \<Rightarrow> Inl ValueError | x # xs' \<Rightarrow> Inr (min_from x xs'))"

definition reverse_dynfee :: "bitcoin \<Rightarrow> config \<Rightarrow> rat \<Rightarrow> error + int" where
  "reverse_dynfee B st fee_per_kb =
     (let shortcut =
        (if is_dynfee st \<and> map_of (fee_estimates st) 25 = map_of (fee_estimates st) 5
         then (case map_of (fee_estimates st) 5 of
                 None \<Rightarrow> Inl TypeError
               | Some s5 \<Rightarrow> Inr (fee_per_kb \<ge> s5))
         else Inr False)
      in case shortcut of
           Inl e \<Rightarrow> Inl e
         | Inr True \<Rightarrow> Inr 5
         | Inr False \<Rightarrow>
             (case dynfee B st 4 of
                Inl e \<Rightarrow> Inl e
              | Inr d4 \<Rightarrow>
                  (let l = map (\<lambda>(k, v). (k, Some v)) (fee_estimates st) @ [(1, d4)] in
                   case distances fee_per_kb l of
                     Inl e \<Rightarrow> Inl e
                   | Inr ds \<Rightarrow>
                       (case py_min ds of
                          Inl e \<Rightarrow> Inl e
                        | Inr (min_target, min_value) \<Rightarrow>
                            (case map_of (fee_estimates st) 25 of
                               None \<Rightarrow> Inl TypeError
                             | Some s25 \<Rightarrow>
                                 Inr (if fee_per_kb < s25 / 2 then - 1 else min_target))))))"

definition static_fee_index :: "bitcoin \<Rightarrow> config \<Rightarrow> rat \<Rightarrow> error + int" where
  "static_fee_index B st val =
     (case py_num (max_fee_rate B st) of
        None \<Rightarrow> Inl TypeError
      | Some f \<Rightarrow>
          if f = 0 then Inl ZeroDivisionError
          else
            (let index = py_trunc ((val - of_int f * (2 / 5)) / of_int f * (3 / 50));
                 index = min 0 index;
                 index = max 10 index
             in Inr index))"

section \<open>Lookup and update\<close>

lemma save_user_config_fields [simp]:
  "user_config (snd (save_user_config st)) = user_config st"
  "cmdline_options (snd (save_user_config st)) = cmdline_options st"
  "path (snd (save_user_config st)) = path st"
  "fs (snd (save_user_config st)) = fs st"
  "fee_estimates (snd (save_user_config st)) = fee_estimates st"
  by (simp_all add: save_user_config_def Let_def split: write_result.split)

lemma set_key_in_user_config_fields [simp]:
  "cmdline_options (snd (set_key_in_user_config st k v save)) = cmdline_options st"
  "path (snd (set_key_in_user_config st k v save)) = path st"
  "fs (snd (set_key_in_user_config st k v save)) = fs st"
  "fee_estimates (snd (set_key_in_user_config st k v save)) = fee_estimates st"
  by (simp_all add: set_key_in_user_config_def Let_def)

lemma set_key_in_user_config_user_config:
  "user_config (snd (set_key_in_user_config st k v save)) =
     (if v \<noteq> PNone then AList.update k v (user_config st)
      else AList.delete k (user_config st))"
  by (simp add: set_key_in_user_config_def Let_def)

lemma set_key_fields [simp]:
  "cmdline_options (snd (set_key st k v save)) = cmdline_options st"
  "path (snd (set_key st k v save)) = path st"
  "fs (snd (set_key st k v save)) = fs st"
  "fee_estimates (snd (set_key st k v save)) = fee_estimates st"
  by (simp_all add: set_key_def)

lemma set_key_user_config:
  "user_config (snd (set_key st k v save)) =
     (if \<not> is_modifiable st k then user_config st
      else if v \<noteq> PNone then AList.update k v (user_config st)
      else AList.delete k (user_config st))"
  by (simp add: set_key_def set_key_in_user_config_user_config)

lemma key_in_dict: "k \<in> fst ` set d \<longleftrightarrow> map_of d k \<noteq> None"
  by (simp add: map_of_eq_None_iff)

text \<open>
  C1. For every key and default, \<open>get(key, default)\<close> returns \<open>cmdline[key]\<close> when the
  key is present in \<open>cmdline\<close> with a value other than \<open>None\<close>; otherwise it returns
  \<open>persisted[key]\<close> when the key is present in \<open>persisted\<close>; otherwise it returns
  the given default.
\<close>

theorem get_precedence:
  "(\<forall>v. map_of (cmdline_options st) key = Some v \<and> v \<noteq> PNone \<longrightarrow> get st key dflt = v) \<and>
   (\<not> (\<exists>v. map_of (cmdline_options st) key = Some v \<and> v \<noteq> PNone) \<longrightarrow>
      (\<forall>w. map_of (user_config st) key = Some w \<longrightarrow> get st key dflt = w) \<and>
      (key \<notin> fst ` set (user_config st) \<longrightarrow> get st key dflt = dflt))"
  by (auto simp: get_def key_in_dict split: option.split)

theorem get_precedence_witness:
  "get \<lparr>cmdline_options = [(''server'', PStr ''a:1:s''), (''proxy'', PNone)],
        user_config = [(''server'', PStr ''b:2:s''), (''proxy'', PStr ''p''), (''oneserver'', PNone)],
        path = ''/d'', fee_estimates = [], fs = disk_ok, writes = 0, saved = None\<rparr>
       ''server'' (PInt 7) = PStr ''a:1:s'' \<and>
   get \<lparr>cmdline_options = [(''server'', PStr ''a:1:s''), (''proxy'', PNone)],
        user_config = [(''server'', PStr ''b:2:s''), (''proxy'', PStr ''p''), (''oneserver'', PNone)],
        path = ''/d'', fee_estimates = [], fs = disk_ok, writes = 0, saved = None\<rparr>
       ''proxy'' (PInt 7) = PStr ''p'' \<and>
   get \<lparr>cmdline_options = [(''server'', PStr ''a:1:s''), (''proxy'', PNone)],
        user_config = [(''server'', PStr ''b:2:s''), (''proxy'', PStr ''p''), (''oneserver'', PNone)],
        path = ''/d'', fee_estimates = [], fs = disk_ok, writes = 0, saved = None\<rparr>
       ''oneserver'' (PInt 7) = PNone \<and>
   get \<lparr>cmdline_options = [(''server'', PStr ''a:1:s''), (''proxy'', PNone)],
        user_config = [(''server'', PStr ''b:2:s''), (''proxy'', PStr ''p''), (''oneserver'', PNone)],
        path = ''/d'', fee_estimates = [], fs = disk_ok, writes = 0, saved = None\<rparr>
       ''gui'' (PInt 7) = PInt 7"
  using
    get_precedence [of "\<lparr>cmdline_options = [(''server'', PStr ''a:1:s''), (''proxy'', PNone)],
        user_config = [(''server'', PStr ''b:2:s''), (''proxy'', PStr ''p''), (''oneserver'', PNone)],
        path = ''/d'', fee_estimates = [], fs = disk_ok, writes = 0, saved = None\<rparr>" "''server''" "PInt 7"]
    get_precedence [of "\<lparr>cmdline_options = [(''server'', PStr ''a:1:s''), (''proxy'', PNone)],
        user_config = [(''server'', PStr ''b:2:s''), (''proxy'', PStr ''p''), (''oneserver'', PNone)],
        path = ''/d'', fee_estimates = [], fs = disk_ok, writes = 0, saved = None\<rparr>" "''proxy''" "PInt 7"]
    get_precedence [of "\<lparr>cmdline_options = [(''server'', PStr ''a:1:s''), (''proxy'', PNone)],
        user_config = [(''server'', PStr ''b:2:s''), (''proxy'', PStr ''p''), (''oneserver'', PNone)],
        path = ''/d'', fee_estimates = [], fs = disk_ok, writes = 0, saved = None\<rparr>" "''oneserver''" "PInt 7"]
    get_precedence [of "\<lparr>cmdline_options = [(''server'', PStr ''a:1:s''), (''proxy'', PNone)],
        user_config = [(''server'', PStr ''b:2:s''), (''proxy'', PStr ''p''), (''oneserver'', PNone)],
        path = ''/d'', fee_estimates = [], fs = disk_ok, writes = 0, saved = None\<rparr>" "''gui''" "PInt 7"]
  by simp

text \<open>
  C2. For every key \<open>k\<close> and value \<open>v\<close>: \<open>is_modifiable(k)\<close> is \<open>k not in cmdline\<close>. If
  \<open>k\<close> is present in \<open>cmdline\<close>, \<open>set_key(k, v)\<close> returns and changes nothing. If
  \<open>k\<close> is absent from \<open>cmdline\<close>, \<open>set_key(k, v)\<close> with \<open>v\<close> other than \<open>None\<close>
  stores \<open>v\<close> in \<open>persisted\<close>, so that \<open>get(k)\<close> then returns \<open>v\<close>, and
  \<open>set_key(k, None)\<close> removes \<open>k\<close> from \<open>persisted\<close>, so that \<open>get(k, default)\<close>
  then returns the default. The store happens before the file is written, so it
  stands also when the write raises.
\<close>

theorem set_key_then_get:
  "(is_modifiable st k \<longleftrightarrow> k \<notin> fst ` set (cmdline_options st)) \<and>
   (k \<in> fst ` set (cmdline_options st) \<longrightarrow> set_key st k v save = (None, st)) \<and>
   (k \<notin> fst ` set (cmdline_options st) \<longrightarrow>
      (v \<noteq> PNone \<longrightarrow>
         map_of (user_config (snd (set_key st k v save))) k = Some v \<and>
         get (snd (set_key st k v save)) k dflt = v) \<and>
      k \<notin> fst ` set (user_config (snd (set_key st k PNone save))) \<and>
      get (snd (set_key st k PNone save)) k dflt = dflt)"
proof -
  have modifiable: "is_modifiable st k \<longleftrightarrow> k \<notin> fst ` set (cmdline_options st)"
    by (simp add: is_modifiable_def key_in_dict)
  have fixed: "set_key st k v save = (None, st)" if "k \<in> fst ` set (cmdline_options st)"
    using that modifiable by (simp add: set_key_def)
  have stored: "map_of (user_config (snd (set_key st k v save))) k = Some v"
    if "k \<notin> fst ` set (cmdline_options st)" "v \<noteq> PNone"
    using that modifiable by (simp add: set_key_user_config update_conv')
  have removed: "map_of (user_config (snd (set_key st k PNone save))) k = None"
    if "k \<notin> fst ` set (cmdline_options st)"
    using that modifiable by (simp add: set_key_user_config delete_conv')
  have absent: "map_of (cmdline_options (snd (set_key st k w save))) k = None"
    if "k \<notin> fst ` set (cmdline_options st)" for w
    using that by (simp add: key_in_dict)
  have read: "get (snd (set_key st k v save)) k dflt = v"
    if "k \<notin> fst ` set (cmdline_options st)" "v \<noteq> PNone"
    using stored [OF that] absent [OF that(1), of v] by (simp add: get_def)
  have read_default: "get (snd (set_key st k PNone save)) k dflt = dflt"
    if "k \<notin> fst ` set (cmdline_options st)"
    using removed [OF that] absent [OF that, of PNone] by (simp add: get_def)
  show ?thesis
    using modifiable fixed stored removed read read_default
    by (simp add: key_in_dict)
qed

theorem set_key_then_get_witness:
  "set_key \<lparr>cmdline_options = [(''server'', PStr ''a:1:s'')],
            user_config = [(''server'', PStr ''b:2:s''), (''proxy'', PStr ''p'')],
            path = ''/d'', fee_estimates = [], fs = disk_ok, writes = 0, saved = None\<rparr>
     ''server'' (PStr ''c:3:s'') True
   = (None, \<lparr>cmdline_options = [(''server'', PStr ''a:1:s'')],
            user_config = [(''server'', PStr ''b:2:s''), (''proxy'', PStr ''p'')],
            path = ''/d'', fee_estimates = [], fs = disk_ok, writes = 0, saved = None\<rparr>) \<and>
   get (snd (set_key \<lparr>cmdline_options = [(''server'', PStr ''a:1:s'')],
            user_config = [(''server'', PStr ''b:2:s''), (''proxy'', PStr ''p'')],
            path = ''/d'', fee_estimates = [], fs = disk_ok, writes = 0, saved = None\<rparr>
     ''proxy'' (PStr ''q'') True)) ''proxy'' (PInt 7) = PStr ''q'' \<and>
   get (snd (set_key \<lparr>cmdline_options = [(''server'', PStr ''a:1:s'')],
            user_config = [(''server'', PStr ''b:2:s''), (''proxy'', PStr ''p'')],
            path = ''/d'', fee_estimates = [], fs = disk_ok, writes = 0, saved = None\<rparr>
     ''proxy'' PNone True)) ''proxy'' (PInt 7) = PInt 7"
  using
    set_key_then_get [of "\<lparr>cmdline_options = [(''server'', PStr ''a:1:s'')],
            user_config = [(''server'', PStr ''b:2:s''), (''proxy'', PStr ''p'')],
            path = ''/d'', fee_estimates = [], fs = disk_ok, writes = 0, saved = None\<rparr>"
        "''server''" "PStr ''c:3:s''" True]
    set_key_then_get [of "\<lparr>cmdline_options = [(''server'', PStr ''a:1:s'')],
            user_config = [(''server'', PStr ''b:2:s''), (''proxy'', PStr ''p'')],
            path = ''/d'', fee_estimates = [], fs = disk_ok, writes = 0, saved = None\<rparr>"
        "''proxy''" "PStr ''q''" True "PInt 7"]
  by simp

section \<open>Splitting and parsing the server string\<close>

lemma rsplit_two:
  "rsplit c 2 s =
     (if c \<in> set s then
        (if c \<in> set (before_last c s)
         then [before_last c (before_last c s), after_last c (before_last c s), after_last c s]
         else [before_last c s, after_last c s])
      else [s])"
  by (simp add: numeral_2_eq_2)

lemma split_at_last:
  assumes "c \<in> set s"
  shows "s = before_last c s @ c # after_last c s"
proof -
  have "c \<in> set (rev s)" using assms by simp
  then have "dropWhile (\<lambda>x. x \<noteq> c) (rev s) \<noteq> []" by auto
  moreover have "hd (dropWhile (\<lambda>x. x \<noteq> c) (rev s)) = c"
    using calculation hd_dropWhile [of "\<lambda>x. x \<noteq> c" "rev s"] by auto
  ultimately have drop: "dropWhile (\<lambda>x. x \<noteq> c) (rev s) = c # tl (dropWhile (\<lambda>x. x \<noteq> c) (rev s))"
    by (cases "dropWhile (\<lambda>x. x \<noteq> c) (rev s)") auto
  have "rev s = takeWhile (\<lambda>x. x \<noteq> c) (rev s) @ dropWhile (\<lambda>x. x \<noteq> c) (rev s)"
    by simp
  then have "rev s = takeWhile (\<lambda>x. x \<noteq> c) (rev s) @ c # tl (dropWhile (\<lambda>x. x \<noteq> c) (rev s))"
    using drop by simp
  then have "rev (rev s) =
      rev (takeWhile (\<lambda>x. x \<noteq> c) (rev s) @ c # tl (dropWhile (\<lambda>x. x \<noteq> c) (rev s)))"
    by (rule arg_cong)
  then show ?thesis
    by (simp add: before_last_def after_last_def)
qed

lemma after_last_no_sep: "c \<notin> set (after_last c s)"
  by (auto simp: after_last_def dest: set_takeWhileD)

lemma takeWhile_up_to_sep: "c \<notin> set b \<Longrightarrow> takeWhile (\<lambda>x. x \<noteq> c) (b @ c # a) = b"
  by (induction b) auto

lemma dropWhile_up_to_sep: "c \<notin> set b \<Longrightarrow> dropWhile (\<lambda>x. x \<noteq> c) (b @ c # a) = c # a"
  by (induction b) auto

lemma split_at_last_unique:
  assumes "c \<notin> set b"
  shows "before_last c (a @ c # b) = a" and "after_last c (a @ c # b) = b"
proof -
  have take: "takeWhile (\<lambda>x. x \<noteq> c) (rev b @ c # rev a) = rev b"
    using assms by (simp add: takeWhile_up_to_sep)
  have drop: "dropWhile (\<lambda>x. x \<noteq> c) (rev b @ c # rev a) = c # rev a"
    using assms by (simp add: dropWhile_up_to_sep)
  show "before_last c (a @ c # b) = a" by (simp add: before_last_def drop)
  show "after_last c (a @ c # b) = b" by (simp add: after_last_def take)
qed

lemma rsplit_three:
  "rsplit c 2 s = [h, p, q] \<longleftrightarrow> s = h @ c # p @ c # q \<and> c \<notin> set p \<and> c \<notin> set q"
proof
  assume three: "rsplit c 2 s = [h, p, q]"
  then have in_s: "c \<in> set s"
    by (auto simp: rsplit_two split: if_splits)
  with three have in_b: "c \<in> set (before_last c s)"
    by (auto simp: rsplit_two split: if_splits)
  from three in_s in_b have "[before_last c (before_last c s),
      after_last c (before_last c s), after_last c s] = [h, p, q]"
    by (simp only: rsplit_two if_True)
  then have parts: "h = before_last c (before_last c s)"
    "p = after_last c (before_last c s)" "q = after_last c s"
    by simp_all
  have outer: "s = before_last c s @ c # q"
    unfolding parts(3) by (rule split_at_last [OF in_s])
  have inner: "before_last c s = h @ c # p"
    unfolding parts(1,2) by (rule split_at_last [OF in_b])
  have "s = (h @ c # p) @ c # q"
    by (rule outer [unfolded inner])
  then have "s = h @ c # p @ c # q" by simp
  moreover have "c \<notin> set p" "c \<notin> set q"
    unfolding parts(2,3) by (rule after_last_no_sep)+
  ultimately show "s = h @ c # p @ c # q \<and> c \<notin> set p \<and> c \<notin> set q"
    by blast
next
  assume rhs: "s = h @ c # p @ c # q \<and> c \<notin> set p \<and> c \<notin> set q"
  then have s: "s = (h @ c # p) @ c # q" and p: "c \<notin> set p" and q: "c \<notin> set q"
    by simp_all
  have "before_last c s = h @ c # p" "after_last c s = q"
    unfolding s by (rule split_at_last_unique [OF q])+
  moreover have "before_last c (h @ c # p) = h" "after_last c (h @ c # p) = p"
    by (rule split_at_last_unique [OF p])+
  moreover have "c \<in> set s" "c \<in> set (h @ c # p)"
    unfolding s by simp_all
  ultimately show "rsplit c 2 s = [h, p, q]"
    by (simp add: rsplit_two)
qed

lemma int_chars:
  assumes "py_int_ok s" and "c \<in> set s"
  shows "is_space c \<or> c = CHR ''+'' \<or> c = CHR ''-'' \<or> is_digit c \<or> c = CHR ''_''"
proof -
  define s1 where "s1 = dropWhile is_space s"
  define s2 where "s2 = (case s1 of [] \<Rightarrow> []
                | d # r \<Rightarrow> if d = CHR ''+'' \<or> d = CHR ''-'' then r else s1)"
  define body where "body = takeWhile (\<lambda>c. is_digit c \<or> c = CHR ''_'') s2"
  define rest where "rest = dropWhile (\<lambda>c. is_digit c \<or> c = CHR ''_'') s2"
  have ok: "list_all is_space rest"
    using assms(1) unfolding py_int_ok_def Let_def s1_def s2_def rest_def by simp
  have s: "s = takeWhile is_space s @ s1" by (simp add: s1_def)
  have s2: "s2 = body @ rest" by (simp add: body_def rest_def)
  have in_s2: "is_space d \<or> is_digit d \<or> d = CHR ''_''" if "d \<in> set s2" for d
  proof -
    from that s2 consider "d \<in> set body" | "d \<in> set rest" by auto
    then show ?thesis
    proof cases
      case 1
      then show ?thesis unfolding body_def by (auto dest: set_takeWhileD)
    next
      case 2
      then show ?thesis using ok by (simp add: list_all_iff)
    qed
  qed
  have in_s1: "is_space d \<or> d = CHR ''+'' \<or> d = CHR ''-'' \<or> is_digit d \<or> d = CHR ''_''"
    if "d \<in> set s1" for d
    using that in_s2 [of d] by (cases s1) (auto simp: s2_def split: if_splits)
  from assms(2) s have "c \<in> set (takeWhile is_space s) \<or> c \<in> set s1"
    by (metis Un_iff set_append)
  then show ?thesis
    using in_s1 [of c] by (auto dest: set_takeWhileD)
qed

lemma int_no_colon: "py_int_ok s \<Longrightarrow> CHR '':'' \<notin> set s"
  by (auto dest!: int_chars simp: is_space_def is_digit_def)

lemma convert_server_well_formed:
  "convert_server v = Inr r \<longleftrightarrow>
     (\<exists>host port protocol.
        py_str v = host @ '':'' @ port @ '':'' @ protocol \<and>
        py_int_ok port \<and> (protocol = ''s'' \<or> protocol = ''t'') \<and>
        r = host @ '':'' @ port @ '':s'')"
proof
  assume ok: "convert_server v = Inr r"
  then obtain host port protocol where three: "rsplit CHR '':'' 2 (py_str v) = [host, port, protocol]"
    by (auto simp: convert_server_def split: list.splits)
  with ok have "py_int_ok port" "protocol = ''s'' \<or> protocol = ''t''"
    "r = host @ '':'' @ port @ '':s''"
    by (auto simp: convert_server_def split: if_splits)
  moreover have "py_str v = host @ '':'' @ port @ '':'' @ protocol"
    using three by (simp add: rsplit_three)
  ultimately show "\<exists>host port protocol.
        py_str v = host @ '':'' @ port @ '':'' @ protocol \<and>
        py_int_ok port \<and> (protocol = ''s'' \<or> protocol = ''t'') \<and>
        r = host @ '':'' @ port @ '':s''"
    by blast
next
  assume "\<exists>host port protocol.
        py_str v = host @ '':'' @ port @ '':'' @ protocol \<and>
        py_int_ok port \<and> (protocol = ''s'' \<or> protocol = ''t'') \<and>
        r = host @ '':'' @ port @ '':s''"
  then obtain host port protocol where str: "py_str v = host @ '':'' @ port @ '':'' @ protocol"
    and port: "py_int_ok port" and protocol: "protocol = ''s'' \<or> protocol = ''t''"
    and r: "r = host @ '':'' @ port @ '':s''"
    by blast
  have "CHR '':'' \<notin> set port" using port by (rule int_no_colon)
  moreover have "CHR '':'' \<notin> set protocol" using protocol by auto
  ultimately have "rsplit CHR '':'' 2 (py_str v) = [host, port, protocol]"
    using str by (simp add: rsplit_three)
  then show "convert_server v = Inr r"
    using port protocol r by (auto simp: convert_server_def)
qed

section \<open>The migration gate\<close>

lemma rename_one:
  "rename_config_keys c [(old, new)] =
     (case map_of c old of
        None \<Rightarrow> (False, c)
      | Some v \<Rightarrow>
          (True, AList.delete old (if map_of c new = None then AList.update new v c else c)))"
  by (simp add: Let_def split: option.split)

declare rename_config_keys.simps [simp del]

lemma map_of_rename_one:
  "map_of (snd (rename_config_keys c [(old, new)])) k =
     (if map_of c old = None then map_of c k
      else if k = old then None
      else if k = new \<and> map_of c new = None then map_of c old
      else map_of c k)"
  by (auto simp: rename_one delete_conv' update_conv' split: option.split)

lemma cmdline_without_version:
  "map_of (snd (rename_config_keys (AList.delete ''config_version'' d)
                  [(''auto_cycle'', ''auto_connect'')])) ''config_version'' = None"
  by (simp add: map_of_rename_one delete_conv')

lemma get_persisted:
  "map_of (cmdline_options st) k = None \<Longrightarrow>
     get st k dflt = (case map_of (user_config st) k of None \<Rightarrow> dflt | Some v \<Rightarrow> v)"
  by (simp add: get_def)

lemma get_config_version_num:
  "get_config_version st = Inr v \<Longrightarrow> \<exists>n. py_num v = Some n"
  by (auto simp: get_config_version_def py_greater_def Let_def split: option.splits)

lemma get_config_version_persisted:
  "map_of (cmdline_options st) ''config_version'' = None \<Longrightarrow>
     get_config_version st =
       (let v = (case map_of (user_config st) ''config_version'' of
                   None \<Rightarrow> PInt 1 | Some w \<Rightarrow> w)
        in case py_num v of None \<Rightarrow> Inl TypeError | Some n \<Rightarrow> Inr v)"
  by (simp add: get_config_version_def get_persisted py_greater_def Let_def split: option.split)

lemma gate_cases:
  assumes "get_config_version st = Inr v" and "py_num v = Some cur"
  shows "is_upgrade_method_needed st lo hi =
           (if hi < cur then Inr False else if cur < lo then Inl UpgradeError else Inr True)"
  using assms by (simp add: is_upgrade_method_needed_def py_greater_def py_less_def)

lemma convert_version_2_above:
  assumes "get_config_version st = Inr v" and "py_num v = Some cur" and "1 < cur"
  shows "convert_version_2 st = (None, st)"
  using assms by (simp add: convert_version_2_def gate_cases)

lemma convert_version_2_below:
  assumes "get_config_version st = Inr v" and "py_num v = Some cur" and "cur < 1"
  shows "convert_version_2 st = (Some UpgradeError, st)"
  using assms by (simp add: convert_version_2_def gate_cases)

lemma init_aborts_below_window:
  assumes "m \<noteq> []" and "map_of m ''config_version'' = Some v" and "py_num v = Some n" and "n < 1"
  shows "init options (Some m) p f = Inl UpgradeError"
proof -
  let ?st = "\<lparr>cmdline_options =
                  snd (rename_config_keys
                         (AList.delete ''config_version'' (case options of None \<Rightarrow> [] | Some d \<Rightarrow> d))
                         [(''auto_cycle'', ''auto_connect'')]),
                user_config = m, path = p, fee_estimates = [],
                fs = f, writes = 0, saved = None\<rparr>"
  have version: "get_config_version ?st = Inr v"
    using assms(2,3) by (simp add: get_config_version_persisted cmdline_without_version)
  have "requires_upgrade ?st = Inr True"
    using version assms(3,4) by (simp add: requires_upgrade_def py_less_def FINAL_CONFIG_VERSION_def)
  moreover have "upgrade ?st = (Some UpgradeError, ?st)"
    using convert_version_2_below [OF version assms(3,4)] by (simp add: upgrade_def)
  ultimately show ?thesis
    using assms(1) by (simp add: init_def Let_def)
qed

text \<open>
  C4. For every current schema version (a number) and every window
  \<open>[min_version, max_version]\<close>: the gate of a migration step answers \<open>False\<close> when
  the current version is above \<open>max_version\<close>, raises when it is below
  \<open>min_version\<close>, and answers \<open>True\<close> exactly when the version is inside the
  window. So \<open>convert_version_2\<close>, whose window is \<open>[1, 1]\<close>, changes nothing above
  version 1, and below version 1 it raises, \<open>upgrade\<close> raises and the constructor
  raises.
\<close>

theorem upgrade_window:
  assumes "get_config_version st = Inr v" and "py_num v = Some cur"
    and "min_version \<le> max_version"
  shows "(max_version < cur \<longrightarrow>
            is_upgrade_method_needed st min_version max_version = Inr False) \<and>
         (cur < min_version \<longrightarrow>
            is_upgrade_method_needed st min_version max_version = Inl UpgradeError) \<and>
         (is_upgrade_method_needed st min_version max_version = Inr True \<longleftrightarrow>
            min_version \<le> cur \<and> cur \<le> max_version) \<and>
         (1 < cur \<longrightarrow> convert_version_2 st = (None, st)) \<and>
         (cur < 1 \<longrightarrow>
            convert_version_2 st = (Some UpgradeError, st) \<and>
            upgrade st = (Some UpgradeError, st)) \<and>
         (\<forall>options m p f.
            m \<noteq> [] \<and> map_of m ''config_version'' = Some v \<and> cur < 1 \<longrightarrow>
            init options (Some m) p f = Inl UpgradeError)"
proof -
  have gate: "is_upgrade_method_needed st min_version max_version =
           (if max_version < cur then Inr False
            else if cur < min_version then Inl UpgradeError else Inr True)"
    using assms(1,2) by (rule gate_cases)
  have below: "convert_version_2 st = (Some UpgradeError, st)" if "cur < 1"
    using assms(1,2) that by (rule convert_version_2_below)
  have above: "convert_version_2 st = (None, st)" if "1 < cur"
    using assms(1,2) that by (rule convert_version_2_above)
  have aborts: "init options (Some m) p f = Inl UpgradeError"
    if "m \<noteq> []" "map_of m ''config_version'' = Some v" "cur < 1" for options m p f
    using that(1,2) assms(2) that(3) by (rule init_aborts_below_window)
  show ?thesis
    using gate below above aborts assms(3) by (auto simp: upgrade_def)
qed

theorem upgrade_window_witness:
  "get_config_version \<lparr>cmdline_options = [], user_config = [(''config_version'', PInt 0)],
      path = ''/d'', fee_estimates = [], fs = disk_ok, writes = 0, saved = None\<rparr> = Inr (PInt 0) \<and>
   is_upgrade_method_needed \<lparr>cmdline_options = [], user_config = [(''config_version'', PInt 0)],
      path = ''/d'', fee_estimates = [], fs = disk_ok, writes = 0, saved = None\<rparr> 1 1
     = Inl UpgradeError \<and>
   is_upgrade_method_needed \<lparr>cmdline_options = [], user_config = [(''config_version'', PInt 0)],
      path = ''/d'', fee_estimates = [], fs = disk_ok, writes = 0, saved = None\<rparr> (- 3) (- 1)
     = Inr False \<and>
   is_upgrade_method_needed \<lparr>cmdline_options = [], user_config = [(''config_version'', PInt 0)],
      path = ''/d'', fee_estimates = [], fs = disk_ok, writes = 0, saved = None\<rparr> (- 1) 1
     = Inr True \<and>
   init None (Some [(''config_version'', PInt 0)]) ''/d'' disk_ok = Inl UpgradeError"
proof -
  let ?st = "\<lparr>cmdline_options = [], user_config = [(''config_version'', PInt 0)],
      path = ''/d'', fee_estimates = [], fs = disk_ok, writes = 0, saved = None\<rparr>"
  have version: "get_config_version ?st = Inr (PInt 0)"
    by (simp add: get_config_version_def get_def py_greater_def)
  have num: "py_num (PInt 0) = Some 0" by simp
  show ?thesis
    using version
      upgrade_window [OF version num, of 1 1]
      upgrade_window [OF version num, of "- 3" "- 1"]
      upgrade_window [OF version num, of "- 1" 1]
    by simp
qed

section \<open>The schema version after construction\<close>

lemma convert_version_2_fields [simp]:
  "cmdline_options (snd (convert_version_2 st)) = cmdline_options st"
  "path (snd (convert_version_2 st)) = path st"
  "fs (snd (convert_version_2 st)) = fs st"
  "fee_estimates (snd (convert_version_2 st)) = fee_estimates st"
  by (simp_all add: convert_version_2_def Let_def split_def
        split: sum.split bool.split option.split)

lemma upgrade_fields [simp]:
  "cmdline_options (snd (upgrade st)) = cmdline_options st"
  "path (snd (upgrade st)) = path st"
  "fs (snd (upgrade st)) = fs st"
  "fee_estimates (snd (upgrade st)) = fee_estimates st"
  by (simp_all add: upgrade_def split_def split: option.split)

lemma upgrade_sets_version:
  assumes "map_of (cmdline_options st) ''config_version'' = None"
    and "upgrade st = (None, st')"
  shows "map_of (user_config st') ''config_version'' = Some (PInt FINAL_CONFIG_VERSION)"
proof -
  obtain e st1 where conv: "convert_version_2 st = (e, st1)" by (cases "convert_version_2 st")
  have "cmdline_options st1 = cmdline_options st"
    using convert_version_2_fields(1) [of st] conv by simp
  then have modifiable: "is_modifiable st1 ''config_version''"
    using assms(1) by (simp add: is_modifiable_def)
  have "st' = snd (set_key st1 ''config_version'' (PInt FINAL_CONFIG_VERSION) True)"
    using assms(2) conv by (cases e) (simp_all add: upgrade_def)
  then show ?thesis
    using modifiable by (simp add: set_key_user_config update_conv')
qed

lemma init_cases:
  "init options loaded p f =
     (let st = \<lparr>cmdline_options =
                  snd (rename_config_keys
                         (AList.delete ''config_version'' (case options of None \<Rightarrow> [] | Some d \<Rightarrow> d))
                         [(''auto_cycle'', ''auto_connect'')]),
                user_config =
                  (case loaded of
                     None \<Rightarrow> [(''config_version'', PInt FINAL_CONFIG_VERSION)]
                   | Some d \<Rightarrow>
                       if d = [] then [(''config_version'', PInt FINAL_CONFIG_VERSION)] else d),
                path = p, fee_estimates = [], fs = f, writes = 0, saved = None\<rparr>
      in case requires_upgrade st of
           Inl e \<Rightarrow> Inl e
         | Inr False \<Rightarrow> Inr st
         | Inr True \<Rightarrow> (case upgrade st of (Some e, st') \<Rightarrow> Inl e | (None, st') \<Rightarrow> Inr st'))"
  by (cases loaded) (simp_all add: init_def Let_def)

lemma requires_upgrade_persisted:
  assumes "map_of (cmdline_options st) ''config_version'' = None"
  shows "requires_upgrade st =
     (case py_num (case map_of (user_config st) ''config_version'' of
                     None \<Rightarrow> PInt 1 | Some w \<Rightarrow> w) of
        None \<Rightarrow> Inl TypeError
      | Some n \<Rightarrow> Inr (n < FINAL_CONFIG_VERSION))"
  using assms
  by (simp add: requires_upgrade_def get_config_version_persisted py_less_def Let_def
        split: option.split)

lemma py_num_above_1: "py_num v = Some n \<Longrightarrow> 1 < n \<Longrightarrow> v = PInt n"
  by (cases v) (auto split: if_splits)




section \<open>The migration to version 2\<close>

lemma save_user_config_returns:
  assumes "path st = [] \<or> (\<forall>i. fs st i = Written \<or> fs st i = NotFoundDirGone)"
  shows "fst (save_user_config st) = None"
proof (cases "path st = []")
  case True
  then show ?thesis by (simp add: save_user_config_def)
next
  case False
  with assms have "fs st (writes st) = Written \<or> fs st (writes st) = NotFoundDirGone"
    by blast
  then show ?thesis
    using False by (auto simp: save_user_config_def Let_def)
qed

lemma set_key_in_user_config_returns:
  assumes "path st = [] \<or> (\<forall>i. fs st i = Written \<or> fs st i = NotFoundDirGone)"
  shows "fst (set_key_in_user_config st k v save) = None"
  using assms by (simp add: set_key_in_user_config_def Let_def save_user_config_returns)

lemma set_key_returns:
  assumes "path st = [] \<or> (\<forall>i. fs st i = Written \<or> fs st i = NotFoundDirGone)"
  shows "fst (set_key st k v save) = None"
  using assms by (simp add: set_key_def set_key_in_user_config_returns)

lemma convert_version_2_run:
  assumes gate: "is_upgrade_method_needed st 1 1 = Inr True"
    and cmd: "map_of (cmdline_options st) ''config_version'' = None"
    and io: "path st = [] \<or> (\<forall>i. fs st i = Written \<or> fs st i = NotFoundDirGone)"
    and renamed: "c = snd (rename_config_keys (user_config st) [(''auto_cycle'', ''auto_connect'')])"
    and server: "server_str = (case map_of c ''server'' of None \<Rightarrow> PNone | Some w \<Rightarrow> w)"
  shows "fst (convert_version_2 st) = None"
    and "user_config (snd (convert_version_2 st)) =
           AList.update ''config_version'' (PInt 2)
             (case convert_server server_str of
                Inl e \<Rightarrow> AList.delete ''server'' c
              | Inr s \<Rightarrow> AList.update ''server'' (PStr s) c)"
proof -
  define st1 where "st1 = st\<lparr>user_config := c\<rparr>"
  have io1: "path st1 = [] \<or> (\<forall>i. fs st1 i = Written \<or> fs st1 i = NotFoundDirGone)"
    using io by (simp add: st1_def)
  have cmd1: "cmdline_options st1 = cmdline_options st" by (simp add: st1_def)
  define st3 where "st3 =
     (case convert_server server_str of
        Inl e \<Rightarrow> snd (set_key_in_user_config st1 ''server'' PNone True)
      | Inr s \<Rightarrow> snd (set_key_in_user_config st1 ''server'' (PStr s) True))"
  have io3: "path st3 = [] \<or> (\<forall>i. fs st3 i = Written \<or> fs st3 i = NotFoundDirGone)"
    using io1 by (simp add: st3_def split: sum.split)
  have modifiable: "is_modifiable st3 ''config_version''"
    using cmd cmd1 by (simp add: st3_def is_modifiable_def split: sum.split)
  have uc3: "user_config st3 =
             (case convert_server server_str of
                Inl e \<Rightarrow> AList.delete ''server'' c
              | Inr s \<Rightarrow> AList.update ''server'' (PStr s) c)"
    by (simp add: st3_def st1_def set_key_in_user_config_user_config split: sum.split)
  have unfold: "convert_version_2 st = set_key st3 ''config_version'' (PInt 2) True"
  proof (cases "convert_server server_str")
    case (Inl e)
    have "fst (set_key_in_user_config st1 ''server'' PNone True) = None"
      using io1 by (rule set_key_in_user_config_returns)
    then show ?thesis
      using gate Inl renamed [symmetric] server [symmetric]
      by (simp add: convert_version_2_def Let_def split_def st3_def st1_def)
  next
    case (Inr s)
    have "fst (set_key_in_user_config st1 ''server'' (PStr s) True) = None"
      using io1 by (rule set_key_in_user_config_returns)
    then show ?thesis
      using gate Inr renamed [symmetric] server [symmetric]
      by (simp add: convert_version_2_def Let_def split_def st3_def st1_def)
  qed
  show "fst (convert_version_2 st) = None"
    unfolding unfold using io3 by (rule set_key_returns)
  show "user_config (snd (convert_version_2 st)) =
           AList.update ''config_version'' (PInt 2)
             (case convert_server server_str of
                Inl e \<Rightarrow> AList.delete ''server'' c
              | Inr s \<Rightarrow> AList.update ''server'' (PStr s) c)"
    unfolding unfold using modifiable uc3 by (simp add: set_key_user_config)
qed



section \<open>Construction on a current map\<close>

lemma init_at_final:
  assumes "map_of m ''config_version'' = Some (PInt FINAL_CONFIG_VERSION)"
  shows "init options (Some m) p f =
     Inr \<lparr>cmdline_options =
            snd (rename_config_keys
                   (AList.delete ''config_version'' (case options of None \<Rightarrow> [] | Some d \<Rightarrow> d))
                   [(''auto_cycle'', ''auto_connect'')]),
          user_config = m, path = p, fee_estimates = [], fs = f, writes = 0, saved = None\<rparr>"
proof -
  have "m \<noteq> []" using assms by auto
  then show ?thesis
    using assms
    by (simp add: init_cases requires_upgrade_persisted cmdline_without_version Let_def)
qed

lemma init_cmdline_options:
  assumes "init options loaded p f = Inr st"
  shows "cmdline_options st =
            snd (rename_config_keys
                   (AList.delete ''config_version'' (case options of None \<Rightarrow> [] | Some d \<Rightarrow> d))
                   [(''auto_cycle'', ''auto_connect'')])"
proof -
  define st0 where "st0 = \<lparr>cmdline_options =
                  snd (rename_config_keys
                         (AList.delete ''config_version'' (case options of None \<Rightarrow> [] | Some d \<Rightarrow> d))
                         [(''auto_cycle'', ''auto_connect'')]),
                user_config =
                  (case loaded of
                     None \<Rightarrow> [(''config_version'', PInt FINAL_CONFIG_VERSION)]
                   | Some d \<Rightarrow>
                       if d = [] then [(''config_version'', PInt FINAL_CONFIG_VERSION)] else d),
                path = p, fee_estimates = [], fs = f, writes = 0, saved = None\<rparr>"
  have "st = st0 \<or> st = snd (upgrade st0)"
    using assms unfolding st0_def init_cases Let_def
    by (auto split: sum.splits bool.splits prod.splits option.splits)
  then have "cmdline_options st = cmdline_options st0" by auto
  then show ?thesis by (simp add: st0_def)
qed

text \<open>
  C6. When the loader returns nothing or an empty map, construction sets \<open>persisted\<close>
  to exactly \<open>{config_version: FINAL_CONFIG_VERSION}\<close>, and the object returned is the
  one built before any migration: no write was attempted and nothing was saved. When
  the loaded map is already at \<open>FINAL_CONFIG_VERSION\<close>, it is kept as it is, again
  with no write. So constructing again on the \<open>persisted\<close> map of an object at
  \<open>FINAL_CONFIG_VERSION\<close> gives the same settings, with no write.
\<close>

theorem init_already_current:
  "(loaded = None \<or> loaded = Some [] \<longrightarrow>
      init options loaded p f =
        Inr \<lparr>cmdline_options =
               snd (rename_config_keys
                      (AList.delete ''config_version'' (case options of None \<Rightarrow> [] | Some d \<Rightarrow> d))
                      [(''auto_cycle'', ''auto_connect'')]),
             user_config = [(''config_version'', PInt FINAL_CONFIG_VERSION)],
             path = p, fee_estimates = [], fs = f, writes = 0, saved = None\<rparr>) \<and>
   (\<forall>m. loaded = Some m \<and> map_of m ''config_version'' = Some (PInt FINAL_CONFIG_VERSION) \<longrightarrow>
      init options loaded p f =
        Inr \<lparr>cmdline_options =
               snd (rename_config_keys
                      (AList.delete ''config_version'' (case options of None \<Rightarrow> [] | Some d \<Rightarrow> d))
                      [(''auto_cycle'', ''auto_connect'')]),
             user_config = m, path = p, fee_estimates = [], fs = f, writes = 0, saved = None\<rparr>) \<and>
   (\<forall>st f'. init options loaded p f = Inr st \<and>
        map_of (user_config st) ''config_version'' = Some (PInt FINAL_CONFIG_VERSION) \<longrightarrow>
      init options (Some (user_config st)) p f' =
        Inr (st\<lparr>fs := f', writes := 0, saved := None\<rparr>))"
proof -
  have fresh: "init options loaded p f =
        Inr \<lparr>cmdline_options =
               snd (rename_config_keys
                      (AList.delete ''config_version'' (case options of None \<Rightarrow> [] | Some d \<Rightarrow> d))
                      [(''auto_cycle'', ''auto_connect'')]),
             user_config = [(''config_version'', PInt FINAL_CONFIG_VERSION)],
             path = p, fee_estimates = [], fs = f, writes = 0, saved = None\<rparr>"
    if "loaded = None \<or> loaded = Some []"
    using that
    by (auto simp: init_cases requires_upgrade_persisted cmdline_without_version Let_def)
  have current: "init options loaded p f =
        Inr \<lparr>cmdline_options =
               snd (rename_config_keys
                      (AList.delete ''config_version'' (case options of None \<Rightarrow> [] | Some d \<Rightarrow> d))
                      [(''auto_cycle'', ''auto_connect'')]),
             user_config = m, path = p, fee_estimates = [], fs = f, writes = 0, saved = None\<rparr>"
    if "loaded = Some m" "map_of m ''config_version'' = Some (PInt FINAL_CONFIG_VERSION)" for m
    using that init_at_final by simp
  have again: "init options (Some (user_config st)) p f' =
        Inr (st\<lparr>fs := f', writes := 0, saved := None\<rparr>)"
    if run: "init options loaded p f = Inr st"
      and final: "map_of (user_config st) ''config_version'' = Some (PInt FINAL_CONFIG_VERSION)"
    for st f'
  proof -
    have cmd: "cmdline_options st =
            snd (rename_config_keys
                   (AList.delete ''config_version'' (case options of None \<Rightarrow> [] | Some d \<Rightarrow> d))
                   [(''auto_cycle'', ''auto_connect'')])"
      using run by (rule init_cmdline_options)
    have "path st = p \<and> fee_estimates st = []"
      using run unfolding init_cases Let_def
      by (auto split: sum.splits bool.splits prod.splits option.splits
            dest!: arg_cong [where f = snd])
    then show ?thesis
      using init_at_final [OF final, of options p f'] cmd by simp
  qed
  show ?thesis
    using fresh current again by blast
qed

theorem init_already_current_witness:
  "init None None ''/d'' disk_ok =
     Inr \<lparr>cmdline_options = [], user_config = [(''config_version'', PInt 2)], path = ''/d'',
          fee_estimates = [], fs = disk_ok, writes = 0, saved = None\<rparr> \<and>
   init (Some [(''auto_cycle'', PBool True)])
        (Some [(''config_version'', PInt 2), (''server'', PStr ''h:1:t'')]) ''/d'' disk_ok =
     Inr \<lparr>cmdline_options = [(''auto_connect'', PBool True)],
          user_config = [(''config_version'', PInt 2), (''server'', PStr ''h:1:t'')],
          path = ''/d'', fee_estimates = [], fs = disk_ok, writes = 0, saved = None\<rparr> \<and>
   init None (Some [(''config_version'', PInt 1)]) ''/d'' disk_ok =
     Inr \<lparr>cmdline_options = [], user_config = [(''config_version'', PInt 2)], path = ''/d'',
          fee_estimates = [], fs = disk_ok, writes = 3,
          saved = Some [(''config_version'', PInt 2)]\<rparr> \<and>
   init None (Some [(''config_version'', PInt 2)]) ''/d'' disk_ok =
     Inr \<lparr>cmdline_options = [], user_config = [(''config_version'', PInt 2)], path = ''/d'',
          fee_estimates = [], fs = disk_ok, writes = 0, saved = None\<rparr>"
proof -
  have run: "init None (Some [(''config_version'', PInt 1)]) ''/d'' disk_ok =
     Inr \<lparr>cmdline_options = [], user_config = [(''config_version'', PInt 2)], path = ''/d'',
          fee_estimates = [], fs = disk_ok, writes = 3,
          saved = Some [(''config_version'', PInt 2)]\<rparr>"
    by (simp add: init_def requires_upgrade_def get_config_version_def get_def py_greater_def
          py_less_def FINAL_CONFIG_VERSION_def upgrade_def convert_version_2_def
          is_upgrade_method_needed_def rename_one convert_server_def py_str_def rsplit_two
          set_key_in_user_config_def set_key_def is_modifiable_def save_user_config_def
          disk_ok_def Let_def)
  show ?thesis
    using run
      init_already_current [of None None "''/d''" disk_ok]
      init_already_current [of "Some [(''config_version'', PInt 2), (''server'', PStr ''h:1:t'')]"
        "Some [(''auto_cycle'', PBool True)]" "''/d''" disk_ok]
      init_already_current [of "Some [(''config_version'', PInt 1)]" None "''/d''" disk_ok]
    by (simp add: FINAL_CONFIG_VERSION_def rename_one)
qed

section \<open>Fee levels\<close>

lemma distances_of_samples:
  "distances t (map (\<lambda>(k, v). (k, Some v)) l) = Inr (map (\<lambda>(k, v). (k, \<bar>v - t\<bar>)) l)"
  by (induction l) auto

lemma distances_of_candidates:
  "distances t (map (\<lambda>(k, v). (k, Some v)) l @ [(1, Some d)]) =
     Inr (map (\<lambda>(k, v). (k, \<bar>v - t\<bar>)) (l @ [(1, d)]))"
  using distances_of_samples [of t "l @ [(1, d)]"] by simp

lemma min_from_prefix:
  assumes "i < length pre"
    and "\<forall>j < length pre. snd (pre ! i) \<le> snd (pre ! j)"
    and "\<forall>j < i. snd (pre ! i) < snd (pre ! j)"
  shows "\<exists>i' < length (pre @ xs).
           min_from (pre ! i) xs = (pre @ xs) ! i' \<and>
           (\<forall>j < length (pre @ xs). snd ((pre @ xs) ! i') \<le> snd ((pre @ xs) ! j)) \<and>
           (\<forall>j < i'. snd ((pre @ xs) ! i') < snd ((pre @ xs) ! j))"
  using assms
proof (induction xs arbitrary: pre i)
  case Nil
  then show ?case by auto
next
  case (Cons x xs)
  let ?pre = "pre @ [x]"
  show ?case
  proof (cases "snd x < snd (pre ! i)")
    case True
    have best: "?pre ! length pre = x" by simp
    have le: "\<forall>j < length ?pre. snd (?pre ! length pre) \<le> snd (?pre ! j)"
    proof (intro allI impI)
      fix j assume "j < length ?pre"
      then consider "j < length pre" | "j = length pre" by force
      then show "snd (?pre ! length pre) \<le> snd (?pre ! j)"
      proof cases
        case 1
        then have "snd (pre ! i) \<le> snd (pre ! j)" using Cons.prems(2) by blast
        with True 1 show ?thesis by (simp add: nth_append)
      next
        case 2
        then show ?thesis by simp
      qed
    qed
    have lt: "\<forall>j < length pre. snd (?pre ! length pre) < snd (?pre ! j)"
    proof (intro allI impI)
      fix j assume j: "j < length pre"
      then have "snd (pre ! i) \<le> snd (pre ! j)" using Cons.prems(2) by blast
      with True j show "snd (?pre ! length pre) < snd (?pre ! j)" by (simp add: nth_append)
    qed
    have "length pre < length ?pre" by simp
    from Cons.IH [OF this le lt] True show ?thesis by simp
  next
    case False
    have i: "i < length ?pre" using Cons.prems(1) by simp
    have same: "?pre ! i = pre ! i" using Cons.prems(1) by (simp add: nth_append)
    have le: "\<forall>j < length ?pre. snd (?pre ! i) \<le> snd (?pre ! j)"
    proof (intro allI impI)
      fix j assume "j < length ?pre"
      then consider "j < length pre" | "j = length pre" by force
      then show "snd (?pre ! i) \<le> snd (?pre ! j)"
      proof cases
        case 1
        then show ?thesis using Cons.prems(2) same by (simp add: nth_append)
      next
        case 2
        then show ?thesis using False same by simp
      qed
    qed
    have lt: "\<forall>j < i. snd (?pre ! i) < snd (?pre ! j)"
      using Cons.prems(1,3) same by (simp add: nth_append)
    from Cons.IH [OF i le lt] False same show ?thesis by simp
  qed
qed

lemma py_min_first_least:
  assumes "xs \<noteq> []"
  shows "\<exists>i < length xs.
           py_min xs = Inr (xs ! i) \<and>
           (\<forall>j < length xs. snd (xs ! i) \<le> snd (xs ! j)) \<and>
           (\<forall>j < i. snd (xs ! i) < snd (xs ! j))"
proof -
  from assms obtain x xs' where xs: "xs = x # xs'" by (cases xs) auto
  have "\<exists>i' < length ([x] @ xs').
           min_from ([x] ! 0) xs' = ([x] @ xs') ! i' \<and>
           (\<forall>j < length ([x] @ xs'). snd (([x] @ xs') ! i') \<le> snd (([x] @ xs') ! j)) \<and>
           (\<forall>j < i'. snd (([x] @ xs') ! i') < snd (([x] @ xs') ! j))"
    by (rule min_from_prefix) simp_all
  then show ?thesis by (simp add: xs py_min_def)
qed





text \<open>
  C9. The claim is that \<open>dynfee(level)\<close> raises for every level outside 0 to 4. Level
  \<open>-1\<close> does not raise: \<open>FEE_TARGETS[-1]\<close> is the last target, and the sample of
  that target is returned.
\<close>

theorem dynfee_negative_level:
  "dynfee \<lparr>MAX_FEE_RATE = 300000, FEE_TARGETS = [25, 10, 5, 2]\<rparr>
     \<lparr>cmdline_options = [], user_config = [], path = ''/d'',
      fee_estimates = [(25, 500), (10, 700), (5, 900), (2, 1000)],
      fs = disk_ok, writes = 0, saved = None\<rparr> (- 1) = Inr (Some 1000)"
  by (simp add: dynfee_def py_index_def)



end
